theory Spec2Isabelle
  imports Complex_Main
begin

section \<open>The Snake simulation of \<open>Snake_Game.py\<close>\<close>

text \<open>
  The class \<open>SnakeGame\<close> interleaves the simulation with Tkinter drawing and timer
  scheduling. The embedding keeps the simulation fields of the object (\<open>cols\<close>,
  \<open>rows\<close>, \<open>snake\<close>, \<open>direction\<close>, \<open>next_direction\<close>, \<open>food\<close>, \<open>game_over\<close>,
  \<open>speed\<close> and the integer held by \<open>score_var\<close>) and leaves out the canvas calls
  (\<open>redraw\<close>, \<open>create_text\<close>) and \<open>master.after\<close>, which read these fields and never
  write them.

  Python integers are unbounded, so coordinates, speed and score are \<open>int\<close>; Python's
  \<open>//\<close> and \<open>%\<close> round towards minus infinity, as \<open>div\<close> and \<open>mod\<close> on \<open>int\<close> do, but
  raise \<open>ZeroDivisionError\<close> for a zero divisor, which the model writes out.
\<close>

type_synonym cell = "int \<times> int"

datatype error = ZeroDivisionError | IndexError | OverflowError

record game =
  cols :: int
  rows :: int
  snake :: "cell list"
  direction :: cell
  next_direction :: cell
  food :: "cell option"
  game_over :: bool
  speed :: int
  score :: int

subsection \<open>Food placement\<close>

text \<open>
  \<open>empty_cells\<close> is the list comprehension of \<open>place_food\<close>: \<open>x\<close> runs over
  \<open>range(cols)\<close> in the outer loop, \<open>y\<close> over \<open>range(rows)\<close> in the inner one, and a
  non-positive bound gives an empty range.
\<close>

definition empty_cells :: "game \<Rightarrow> cell list" where
  "empty_cells g =
     [(x, y). x \<leftarrow> [0 .. cols g - 1], y \<leftarrow> [0 .. rows g - 1], (x, y) \<notin> set (snake g)]"

text \<open>
  \<open>random.choice(seq)\<close> returns \<open>seq[i]\<close> for an index \<open>i\<close> drawn uniformly below
  \<open>len(seq)\<close>. The draw is the parameter \<open>r\<close> of the model, reduced below the length
  of the list.
\<close>

definition place_food :: "nat \<Rightarrow> game \<Rightarrow> game" where
  "place_food r g =
     (let ec = empty_cells g
      in g\<lparr>food := (if ec \<noteq> [] then Some (ec ! (r mod length ec)) else None)\<rparr>)"

subsection \<open>Reset and construction\<close>

definition reset :: "nat \<Rightarrow> game \<Rightarrow> game" where
  "reset r g =
     (let mid_x = cols g div 2;
          mid_y = rows g div 2;
          g1 = g\<lparr>snake := [(mid_x - i, mid_y). i \<leftarrow> [0, 1, 2]]\<rparr>;
          g2 = g1\<lparr>direction := (1, 0)\<rparr>;
          g3 = g2\<lparr>next_direction := direction g2\<rparr>;
          g4 = place_food r g3
      in g4\<lparr>game_over := False, speed := 120, score := 0\<rparr>)"

text \<open>
  The constructor computes the grid from the pixel sizes and calls \<open>reset\<close>, which
  assigns every other field; the fields that do not exist before that call are
  filled with placeholders here.
\<close>

definition blank :: "int \<Rightarrow> int \<Rightarrow> game" where
  "blank c r = \<lparr>cols = c, rows = r, snake = [], direction = (0, 0),
     next_direction = (0, 0), food = None, game_over = False, speed = 0, score = 0\<rparr>"

definition init :: "nat \<Rightarrow> int \<Rightarrow> int \<Rightarrow> int \<Rightarrow> error + game" where
  "init r width height cell_size =
     (if cell_size = 0 then Inl ZeroDivisionError
      else Inr (reset r (blank (width div cell_size) (height div cell_size))))"

subsection \<open>Direction changes\<close>

definition change_direction :: "cell \<Rightarrow> game \<Rightarrow> game" where
  "change_direction d g =
     (if fst d = - fst (direction g) \<and> snd d = - snd (direction g) then g
      else g\<lparr>next_direction := d\<rparr>)"

subsection \<open>The speed ramp\<close>

text \<open>
  \<open>int(self.speed * 0.95)\<close> is a floating-point computation: the integer is converted
  to a double, multiplied by the double nearest to 0.95, and the product is truncated.
  Both the conversion and the product round to 53 significant bits, ties to even.
  \<open>d095\<close> is the significand of that double: \<open>0.95\<close> is stored as \<open>d095 / 2 ^ 53\<close>
  (\<open>0x1.e666666666666p-1\<close>).
\<close>

function bit_length :: "int \<Rightarrow> nat" where
  "bit_length n = (if n \<le> 0 then 0 else Suc (bit_length (n div 2)))"
  by pat_completeness auto
termination
  by (relation "measure nat") auto

declare bit_length.simps [simp del]

definition round_sig53 :: "int \<Rightarrow> int" where
  "round_sig53 q =
     (let k = bit_length q - 53;
          m = q div 2 ^ k;
          rest = q mod 2 ^ k
      in (if 2 ^ k < 2 * rest \<or> (2 * rest = 2 ^ k \<and> odd m) then m + 1 else m) * 2 ^ k)"

definition d095 :: int where
  "d095 = 8556839292003942"

text \<open>
  \<open>int_mul_095 n\<close> is \<open>int(n * 0.95)\<close>: the conversion of an integer too large for a
  double raises \<open>OverflowError\<close>; the product of the converted magnitude \<open>a\<close> with
  \<open>d095 / 2 ^ 53\<close> is rounded, truncated towards zero, and given the sign of \<open>n\<close>.
\<close>

definition int_mul_095 :: "int \<Rightarrow> error + int" where
  "int_mul_095 n =
     (let a = round_sig53 \<bar>n\<bar>
      in if 2 ^ 1024 \<le> a then Inl OverflowError
         else Inr (sgn n * (round_sig53 (a * d095) div 2 ^ 53)))"

definition speed_up :: "int \<Rightarrow> error + int" where
  "speed_up s = (case int_mul_095 s of Inl e \<Rightarrow> Inl e | Inr v \<Rightarrow> Inr (max 30 v))"

subsection \<open>One tick\<close>

definition on_game_over :: "game \<Rightarrow> game" where
  "on_game_over g = g\<lparr>game_over := True\<rparr>"

text \<open>
  \<open>new_head\<close> is lines 86 to 88 of the source, read in a state whose direction is
  already committed: \<open>self.snake[0]\<close> raises \<open>IndexError\<close> on an empty list and the
  two \<open>%\<close> raise \<open>ZeroDivisionError\<close> on an empty grid dimension.
\<close>

definition new_head :: "game \<Rightarrow> error + cell" where
  "new_head g =
     (case snake g of
        [] \<Rightarrow> Inl IndexError
      | (head_x, head_y) # _ \<Rightarrow>
          (case direction g of (dx, dy) \<Rightarrow>
             if cols g = 0 \<or> rows g = 0 then Inl ZeroDivisionError
             else Inr ((head_x + dx) mod cols g, (head_y + dy) mod rows g)))"

text \<open>
  A method that raises leaves the object as it was at the raise; \<open>Inl (e, g')\<close> is the
  exception \<open>e\<close> together with that state, \<open>Inr g'\<close> is a normal return.
\<close>

definition tick :: "nat \<Rightarrow> game \<Rightarrow> (error \<times> game) + game" where
  "tick r g =
     (if game_over g then Inr g
      else
        let g1 = g\<lparr>direction := next_direction g\<rparr>
        in case new_head g1 of
             Inl e \<Rightarrow> Inl (e, g1)
           | Inr nh \<Rightarrow>
               if nh \<in> set (snake g1) then Inr (on_game_over g1)
               else
                 let g2 = g1\<lparr>snake := nh # snake g1\<rparr>
                 in if food g2 = Some nh then
                      let g3 = g2\<lparr>score := score g2 + 1\<rparr>
                      in case speed_up (speed g3) of
                           Inl e \<Rightarrow> Inl (e, g3)
                         | Inr s \<Rightarrow> Inr (place_food r (g3\<lparr>speed := s\<rparr>))
                    else Inr (g2\<lparr>snake := butlast (snake g2)\<rparr>))"

definition after :: "(error \<times> game) + game \<Rightarrow> game" where
  "after res = (case res of Inl (e, g) \<Rightarrow> g | Inr g \<Rightarrow> g)"

definition on_restart :: "nat \<Rightarrow> game \<Rightarrow> game" where
  "on_restart r g = (if game_over g then reset r g else g)"

subsection \<open>Reachable states\<close>

text \<open>
  The states of a game object: the one left by a reset on any grid, and every state that
  a tick (returning or raising), a direction request or a food placement leaves behind.
\<close>

inductive reachable :: "game \<Rightarrow> bool" where
  reach_reset: "reachable (reset r g)"
| reach_tick: "reachable g \<Longrightarrow> reachable (after (tick r g))"
| reach_change: "reachable g \<Longrightarrow> reachable (change_direction d g)"
| reach_food: "reachable g \<Longrightarrow> reachable (place_food r g)"

subsection \<open>The free cells of the grid\<close>

text \<open>
  The specification chooses the food among "all grid cells not currently occupied by
  the snake". \<open>free_cells\<close> is that set, written from the specification's words; the
  list \<open>empty_cells\<close> above is what the code computes, and the two are compared below.
\<close>

definition free_cells :: "game \<Rightarrow> cell set" where
  "free_cells g = ({0 ..< cols g} \<times> {0 ..< rows g}) - set (snake g)"

subsection \<open>Example games\<close>

text \<open>
  \<open>row4\<close> is a fresh game on a grid of 4 columns and 1 row: the snake lies on columns
  2, 1, 0 and the only free cell, column 3, holds the food. One tick later
  (\<open>row4_full\<close>) the snake has eaten it and fills the grid; the next tick moves the head
  onto the tail cell (\<open>row4_over\<close>). \<open>row5\<close> is a fresh game on 5 columns whose food is
  two cells ahead. \<open>edge30\<close> has the head on the last column of a 30 by 20 grid, and
  \<open>turning\<close> is a fresh 4 by 4 game after a request to turn up. \<open>negative_grid\<close> is
  the fresh game of a 600 by 400 window with a cell size of \<open>-20\<close>.
\<close>

definition row4 :: game where
  "row4 = reset 0 (blank 4 1)"

definition row4_full :: game where
  "row4_full = after (tick 0 row4)"

definition row4_over :: game where
  "row4_over = after (tick 0 row4_full)"

definition row5 :: game where
  "row5 = reset 1 (blank 5 1)"

definition edge30 :: game where
  "edge30 = (blank 30 20)\<lparr>snake := [(29, 5), (28, 5), (27, 5)], direction := (1, 0),
     next_direction := (1, 0), speed := 120\<rparr>"

definition turning :: game where
  "turning = change_direction (0, - 1) (reset 0 (blank 4 4))"

definition negative_grid :: game where
  "negative_grid = reset 0 (blank (- 30) (- 20))"

section \<open>Basic facts about the operations\<close>

lemma place_food_frame [simp]:
  "snake (place_food r g) = snake g"
  "cols (place_food r g) = cols g"
  "rows (place_food r g) = rows g"
  "direction (place_food r g) = direction g"
  "next_direction (place_food r g) = next_direction g"
  "game_over (place_food r g) = game_over g"
  "speed (place_food r g) = speed g"
  "score (place_food r g) = score g"
  by (simp_all add: place_food_def Let_def)

lemma change_direction_frame [simp]:
  "snake (change_direction d g) = snake g"
  "cols (change_direction d g) = cols g"
  "rows (change_direction d g) = rows g"
  "direction (change_direction d g) = direction g"
  "food (change_direction d g) = food g"
  "game_over (change_direction d g) = game_over g"
  "speed (change_direction d g) = speed g"
  "score (change_direction d g) = score g"
  by (simp_all add: change_direction_def)

lemma reset_fields:
  "snake (reset r g) =
     [(cols g div 2, rows g div 2), (cols g div 2 - 1, rows g div 2), (cols g div 2 - 2, rows g div 2)]"
  "cols (reset r g) = cols g"
  "rows (reset r g) = rows g"
  "direction (reset r g) = (1, 0)"
  "next_direction (reset r g) = (1, 0)"
  "game_over (reset r g) = False"
  "speed (reset r g) = 120"
  "score (reset r g) = 0"
  by (simp_all add: reset_def Let_def)

lemma new_head_nonempty: "new_head g = Inr nh \<Longrightarrow> snake g \<noteq> []"
  by (auto simp: new_head_def split: list.splits)

lemma tick_dead: "game_over g \<Longrightarrow> tick r g = Inr g"
  by (simp add: tick_def)

lemma tick_raise:
  "\<not> game_over g \<Longrightarrow> new_head (g\<lparr>direction := next_direction g\<rparr>) = Inl e \<Longrightarrow>
   tick r g = Inl (e, g\<lparr>direction := next_direction g\<rparr>)"
  by (simp add: tick_def Let_def)

lemma tick_collide:
  "\<not> game_over g \<Longrightarrow> new_head (g\<lparr>direction := next_direction g\<rparr>) = Inr nh \<Longrightarrow>
   nh \<in> set (snake g) \<Longrightarrow>
   tick r g = Inr (g\<lparr>direction := next_direction g, game_over := True\<rparr>)"
  by (simp add: tick_def Let_def on_game_over_def)

lemma tick_move:
  "\<not> game_over g \<Longrightarrow> new_head (g\<lparr>direction := next_direction g\<rparr>) = Inr nh \<Longrightarrow>
   nh \<notin> set (snake g) \<Longrightarrow> food g \<noteq> Some nh \<Longrightarrow>
   tick r g = Inr (g\<lparr>direction := next_direction g, snake := nh # butlast (snake g)\<rparr>)"
  by (frule new_head_nonempty) (simp add: tick_def Let_def)

lemma tick_eat:
  "\<not> game_over g \<Longrightarrow> new_head (g\<lparr>direction := next_direction g\<rparr>) = Inr nh \<Longrightarrow>
   nh \<notin> set (snake g) \<Longrightarrow> food g = Some nh \<Longrightarrow> speed_up (speed g) = Inr s \<Longrightarrow>
   tick r g = Inr (place_food r (g\<lparr>direction := next_direction g, snake := nh # snake g,
                      score := score g + 1, speed := s\<rparr>))"
  by (simp add: tick_def Let_def)

lemma tick_eat_raise:
  "\<not> game_over g \<Longrightarrow> new_head (g\<lparr>direction := next_direction g\<rparr>) = Inr nh \<Longrightarrow>
   nh \<notin> set (snake g) \<Longrightarrow> food g = Some nh \<Longrightarrow> speed_up (speed g) = Inl e \<Longrightarrow>
   tick r g = Inl (e, g\<lparr>direction := next_direction g, snake := nh # snake g,
                      score := score g + 1\<rparr>)"
  by (simp add: tick_def Let_def)

lemma speed_up_range_list:
  "\<forall>s \<in> set [30..120]. speed_up s = Inr (max 30 (s * 95 div 100))"
  by code_simp

lemma speed_up_range:
  assumes "30 \<le> s" and "s \<le> 120"
  shows "speed_up s = Inr (max 30 (s * 95 div 100))"
proof -
  have "s \<in> set [30..120]"
    using assms by (simp only: set_upto atLeastAtMost_iff)
  with speed_up_range_list show ?thesis
    by blast
qed

lemma speed_up_bounds:
  assumes "30 \<le> s" and "s \<le> 120" and "speed_up s = Inr s'"
  shows "30 \<le> s' \<and> s' \<le> s"
proof -
  have "s' = max 30 (s * 95 div 100)"
    using assms speed_up_range [of s] by simp
  moreover have "s * 95 div 100 \<le> s"
    using assms by linarith
  ultimately show ?thesis
    using assms by simp
qed

text \<open>What a tick leaves behind, by the branch it takes.\<close>

lemma tick_after_cases:
  assumes "\<not> game_over g"
  obtains
    (raised) e where "new_head (g\<lparr>direction := next_direction g\<rparr>) = Inl e"
      and "after (tick r g) = g\<lparr>direction := next_direction g\<rparr>"
  | (collide) nh where "new_head (g\<lparr>direction := next_direction g\<rparr>) = Inr nh"
      and "nh \<in> set (snake g)"
      and "after (tick r g) = g\<lparr>direction := next_direction g, game_over := True\<rparr>"
  | (move) nh where "new_head (g\<lparr>direction := next_direction g\<rparr>) = Inr nh"
      and "nh \<notin> set (snake g)" and "food g \<noteq> Some nh"
      and "after (tick r g) = g\<lparr>direction := next_direction g, snake := nh # butlast (snake g)\<rparr>"
  | (eat) nh s where "new_head (g\<lparr>direction := next_direction g\<rparr>) = Inr nh"
      and "nh \<notin> set (snake g)" and "food g = Some nh" and "speed_up (speed g) = Inr s"
      and "after (tick r g) = place_food r (g\<lparr>direction := next_direction g,
             snake := nh # snake g, score := score g + 1, speed := s\<rparr>)"
  | (eat_raised) nh e where "new_head (g\<lparr>direction := next_direction g\<rparr>) = Inr nh"
      and "nh \<notin> set (snake g)" and "food g = Some nh" and "speed_up (speed g) = Inl e"
      and "after (tick r g) = g\<lparr>direction := next_direction g,
             snake := nh # snake g, score := score g + 1\<rparr>"
proof (cases "new_head (g\<lparr>direction := next_direction g\<rparr>)")
  case (Inl e)
  with assms raised show ?thesis
    by (simp add: tick_raise after_def)
next
  case (Inr nh)
  show ?thesis
  proof (cases "nh \<in> set (snake g)")
    case True
    with assms Inr collide show ?thesis
      by (simp add: tick_collide after_def)
  next
    case False
    show ?thesis
    proof (cases "food g = Some nh")
      case no_food: False
      with assms Inr False move show ?thesis
        by (simp add: tick_move after_def)
    next
      case True
      show ?thesis
      proof (cases "speed_up (speed g)")
        case (Inl e)
        with assms Inr False True eat_raised show ?thesis
          by (simp add: tick_eat_raise after_def)
      next
        case (Inr s)
        with assms \<open>new_head _ = Inr nh\<close> False True eat show ?thesis
          by (simp add: tick_eat after_def)
      qed
    qed
  qed
qed

lemma tick_keeps_distinct:
  assumes "distinct (snake g)"
  shows "distinct (snake (after (tick r g)))"
proof (cases "game_over g")
  case True
  then show ?thesis using assms by (simp add: tick_dead after_def)
next
  case False
  then show ?thesis
    using assms by (cases rule: tick_after_cases [where r = r])
      (auto simp: distinct_butlast dest: in_set_butlastD)
qed

lemma tick_keeps_nonempty:
  assumes "snake g \<noteq> []"
  shows "snake (after (tick r g)) \<noteq> []"
proof (cases "game_over g")
  case True
  then show ?thesis using assms by (simp add: tick_dead after_def)
next
  case False
  then show ?thesis
    using assms by (cases rule: tick_after_cases [where r = r]) simp_all
qed

lemma tick_keeps_length_score:
  assumes "int (length (snake g)) = score g + 3"
  shows "int (length (snake (after (tick r g)))) = score (after (tick r g)) + 3"
proof (cases "game_over g")
  case True
  then show ?thesis using assms by (simp add: tick_dead after_def)
next
  case False
  then show ?thesis
    using assms
  proof (cases rule: tick_after_cases [where r = r])
    case (move nh)
    then have "snake g \<noteq> []" by (auto dest: new_head_nonempty)
    with move assms show ?thesis by simp
  qed simp_all
qed

lemma tick_keeps_speed:
  assumes "30 \<le> speed g \<and> speed g \<le> 120"
  shows "30 \<le> speed (after (tick r g)) \<and> speed (after (tick r g)) \<le> 120"
proof (cases "game_over g")
  case True
  then show ?thesis using assms by (simp add: tick_dead after_def)
next
  case False
  then show ?thesis
    using assms
  proof (cases rule: tick_after_cases [where r = r])
    case (eat nh s)
    with assms speed_up_bounds [of "speed g" s] show ?thesis by simp
  qed simp_all
qed

lemma reachable_distinct: "reachable g \<Longrightarrow> distinct (snake g) \<and> snake g \<noteq> []"
proof (induction rule: reachable.induct)
  case (reach_reset r g)
  show ?case by (simp add: reset_fields)
next
  case (reach_tick g r)
  then show ?case by (simp add: tick_keeps_distinct tick_keeps_nonempty)
qed simp_all

lemma reachable_length_score: "reachable g \<Longrightarrow> int (length (snake g)) = score g + 3"
proof (induction rule: reachable.induct)
  case (reach_reset r g)
  show ?case by (simp add: reset_fields)
next
  case (reach_tick g r)
  from reach_tick.IH show ?case by (rule tick_keeps_length_score)
qed simp_all

lemma reachable_speed: "reachable g \<Longrightarrow> 30 \<le> speed g \<and> speed g \<le> 120"
proof (induction rule: reachable.induct)
  case (reach_reset r g)
  show ?case by (simp add: reset_fields)
next
  case (reach_tick g r)
  from reach_tick.IH show ?case by (rule tick_keeps_speed)
qed simp_all

subsection \<open>The example games, evaluated\<close>

lemma row4_eq:
  "row4 = \<lparr>cols = 4, rows = 1, snake = [(2, 0), (1, 0), (0, 0)], direction = (1, 0),
     next_direction = (1, 0), food = Some (3, 0), game_over = False, speed = 120, score = 0\<rparr>"
  by code_simp

lemma row4_full_eq:
  "row4_full = \<lparr>cols = 4, rows = 1, snake = [(3, 0), (2, 0), (1, 0), (0, 0)],
     direction = (1, 0), next_direction = (1, 0), food = None, game_over = False,
     speed = 114, score = 1\<rparr>"
  by code_simp

lemma row4_over_eq:
  "row4_over = \<lparr>cols = 4, rows = 1, snake = [(3, 0), (2, 0), (1, 0), (0, 0)],
     direction = (1, 0), next_direction = (1, 0), food = None, game_over = True,
     speed = 114, score = 1\<rparr>"
  by code_simp

lemma row5_eq:
  "row5 = \<lparr>cols = 5, rows = 1, snake = [(2, 0), (1, 0), (0, 0)], direction = (1, 0),
     next_direction = (1, 0), food = Some (4, 0), game_over = False, speed = 120, score = 0\<rparr>"
  by code_simp

lemma turning_eq:
  "turning = \<lparr>cols = 4, rows = 4, snake = [(2, 2), (1, 2), (0, 2)], direction = (1, 0),
     next_direction = (0, - 1), food = Some (0, 0), game_over = False, speed = 120, score = 0\<rparr>"
  by code_simp

lemma row4_reachable: "reachable row4"
  unfolding row4_def by (rule reach_reset)

lemma row4_full_reachable: "reachable row4_full"
  unfolding row4_full_def by (rule reach_tick [OF row4_reachable])

lemma floor_095_eq: "real_of_int s * 0.95 = real_of_int (s * 95) / real_of_int 100"
  by simp

lemma floor_095: "\<lfloor>real_of_int s * 0.95\<rfloor> = s * 95 div 100"
  unfolding floor_095_eq by (rule floor_divide_of_int_eq)

lemma row_comprehension:
  "concat (map (\<lambda>y. if P (x, y) then [(x, y)] else []) ys) = filter P (map (Pair x) ys)"
  by (induction ys) simp_all

lemma grid_comprehension:
  "concat (map (\<lambda>x. concat (map (\<lambda>y. if P (x, y) then [(x, y)] else []) ys)) xs) =
   filter P (List.product xs ys)"
  by (induction xs) (simp_all add: row_comprehension)

lemma empty_cells_filter:
  "empty_cells g =
   filter (\<lambda>c. c \<notin> set (snake g)) (List.product [0 .. cols g - 1] [0 .. rows g - 1])"
  unfolding empty_cells_def by (rule grid_comprehension)

lemma distinct_empty_cells: "distinct (empty_cells g)"
  by (simp add: empty_cells_filter distinct_product)

lemma set_empty_cells: "set (empty_cells g) = free_cells g"
  by (auto simp: empty_cells_filter free_cells_def)

lemma length_empty_cells: "length (empty_cells g) = card (free_cells g)"
  using distinct_card [OF distinct_empty_cells, of g] by (simp add: set_empty_cells)

lemma food_place_food:
  "food (place_food r g) =
     (if empty_cells g = [] then None
      else Some (empty_cells g ! (r mod length (empty_cells g))))"
  by (simp add: place_food_def Let_def)

subsection \<open>Reset\<close>

lemma reset_after_request: "reset r (change_direction d g) = reset r g"
  by (simp add: reset_def change_direction_def place_food_def empty_cells_def Let_def)

lemma reset_snake_inside:
  "set (snake (reset r g)) \<subseteq> {0 ..< cols g} \<times> {0 ..< rows g} \<longleftrightarrow> 4 \<le> cols g \<and> 1 \<le> rows g"
  unfolding reset_fields by auto

section \<open>The claims\<close>

subsection \<open>Claim C1\<close>

text \<open>
  As the specification words it, claim C1 also makes every direction request a no-op once
  the game is over. \<open>change_direction\<close> has no test of \<open>game_over\<close>: in the game-over
  state \<open>row4_over\<close> the request to turn up is recorded as the pending direction.
\<close>

theorem game_over_change_direction_counterexample:
  "game_over row4_over \<and> change_direction (0, - 1) row4_over \<noteq> row4_over \<and>
   next_direction (change_direction (0, - 1) row4_over) = (0, - 1) \<and>
   next_direction row4_over = (1, 0)"
  by (simp add: row4_over_eq change_direction_def)

text \<open>
  Claim C1, as the code has it. Once the game is over, every tick returns the state
  unchanged. A direction request changes no field but the pending direction: it leaves
  the snake, the direction, the food, the score, the speed and the game-over flag as they
  are, and records the requested direction unless it is the exact reverse of the current
  one. \<open>on_restart\<close> then resets the game to a live one with score 0 and a snake of 3
  cells; the reset overwrites the pending direction with right, so that the state after
  the restart does not depend on a request made while the game was over.
\<close>

theorem game_over_frame:
  assumes "game_over g"
  shows "tick r g = Inr g \<and>
    change_direction d g = g\<lparr>next_direction := next_direction (change_direction d g)\<rparr> \<and>
    next_direction (change_direction d g) =
      (if d = (- fst (direction g), - snd (direction g)) then next_direction g else d) \<and>
    on_restart r g = reset r g \<and> \<not> game_over (reset r g) \<and> score (reset r g) = 0 \<and>
    length (snake (reset r g)) = 3 \<and>
    on_restart r (change_direction d g) = reset r g \<and>
    direction (reset r g) = (1, 0) \<and> next_direction (reset r g) = (1, 0)"
proof -
  have "on_restart r (change_direction d g) = reset r g"
    using assms by (simp add: on_restart_def reset_after_request)
  with assms show ?thesis
    by (auto simp: tick_dead change_direction_def on_restart_def reset_fields prod_eq_iff)
qed

theorem game_over_frame_witness:
  "game_over row4_over \<and> tick 0 row4_over = Inr row4_over \<and>
   change_direction (0, - 1) row4_over = row4_over\<lparr>next_direction := (0, - 1)\<rparr> \<and>
   change_direction (- 1, 0) row4_over = row4_over \<and>
   on_restart 0 row4_over = reset 0 row4_over \<and>
   next_direction (change_direction (0, - 1) row4_over) = (0, - 1) \<and>
   next_direction (on_restart 0 (change_direction (0, - 1) row4_over)) = (1, 0)"
proof -
  have over: "game_over row4_over"
    by (simp add: row4_over_eq)
  have dir: "direction row4_over = (1, 0)" and nxt: "next_direction row4_over = (1, 0)"
    by (simp_all add: row4_over_eq)
  show ?thesis
    using game_over_frame [OF over, of 0 "(0, - 1)"] game_over_frame [OF over, of 0 "(- 1, 0)"]
      over dir nxt
    by simp
qed

subsection \<open>Claim C2\<close>

text \<open>
  Claim C2. In a tick of a live game, self-collision is judged against the body as it is
  before the move: when the wrapped new head is any cell of the snake, the tail cell
  included, the tick returns with the game over and with the snake, the food, the score
  and the speed as they were.
\<close>

theorem tick_self_collision:
  assumes "\<not> game_over g"
    and "new_head (g\<lparr>direction := next_direction g\<rparr>) = Inr nh"
    and "nh \<in> set (snake g)"
  shows "\<exists>g'. tick r g = Inr g' \<and> game_over g' \<and> snake g' = snake g \<and>
           food g' = food g \<and> score g' = score g \<and> speed g' = speed g"
  using assms by (simp add: tick_collide)

theorem tick_self_collision_witness:
  "new_head (row4_full\<lparr>direction := next_direction row4_full\<rparr>) = Inr (last (snake row4_full)) \<and>
   (\<exists>g'. tick 0 row4_full = Inr g' \<and> game_over g' \<and> snake g' = snake row4_full \<and>
      food g' = food row4_full \<and> score g' = score row4_full \<and> speed g' = speed row4_full)"
proof -
  have alive: "\<not> game_over row4_full"
    by (simp add: row4_full_eq)
  have head: "new_head (row4_full\<lparr>direction := next_direction row4_full\<rparr>) = Inr (0, 0)"
    by (simp add: row4_full_eq new_head_def)
  have hit: "(0, 0) \<in> set (snake row4_full)"
    by (simp add: row4_full_eq)
  have tail: "last (snake row4_full) = (0, 0)"
    by (simp add: row4_full_eq)
  show ?thesis
    using tick_self_collision [OF alive head hit, of 0] head tail by simp
qed

subsection \<open>Claim C3\<close>

text \<open>
  Claim C3. In every state reachable from a reset by ticks, direction requests and food
  placements, a live snake has no duplicate cell and at least one cell.
\<close>

theorem reachable_alive_distinct:
  assumes "reachable g" and "\<not> game_over g"
  shows "distinct (snake g) \<and> 1 \<le> length (snake g)"
proof -
  from assms(1) have "distinct (snake g)" and "snake g \<noteq> []"
    by (simp_all add: reachable_distinct)
  then show ?thesis
    by (cases "snake g") simp_all
qed

theorem reachable_alive_distinct_witness:
  "reachable row4_full \<and> \<not> game_over row4_full \<and>
   distinct (snake row4_full) \<and> 1 \<le> length (snake row4_full)"
proof -
  have alive: "\<not> game_over row4_full"
    by (simp add: row4_full_eq)
  show ?thesis
    using reachable_alive_distinct [OF row4_full_reachable alive] row4_full_reachable alive
    by simp
qed

subsection \<open>Claim C4\<close>

text \<open>
  Claim C4 bounds the new head of every tick of a live game by \<open>0 \<le> x < cols\<close> and
  \<open>0 \<le> y < rows\<close>. Nothing keeps the grid dimensions positive: a window of 600 by 400
  with a cell size of \<open>-20\<close> gives \<open>cols = -30\<close> and \<open>rows = -20\<close>, and Python's \<open>%\<close> with
  a negative divisor gives a result that is not positive; the first tick of that game
  moves the head to \<open>(-14, -10)\<close>.
\<close>

theorem tick_head_negative_grid_counterexample:
  "init 0 600 400 (- 20) = Inr negative_grid \<and> \<not> game_over negative_grid \<and>
   cols negative_grid = - 30 \<and> rows negative_grid = - 20 \<and>
   snake negative_grid = [(- 15, - 10), (- 16, - 10), (- 17, - 10)] \<and>
   new_head (negative_grid\<lparr>direction := next_direction negative_grid\<rparr>) = Inr (- 14, - 10) \<and>
   snake (after (tick 0 negative_grid)) = [(- 14, - 10), (- 15, - 10), (- 16, - 10)] \<and>
   \<not> 0 \<le> fst (hd (snake (after (tick 0 negative_grid))))"
  by code_simp

text \<open>
  Claim C4, as the code has it. On a grid with positive dimensions, a tick of a live game
  whose snake is not empty (no reachable snake is) computes the new head as the old head
  plus the direction, each coordinate reduced modulo
  the grid dimension, so that \<open>0 \<le> x < cols\<close> and \<open>0 \<le> y < rows\<close>. The game is over after
  the tick exactly when that cell was a cell of the snake, and then the snake is unchanged;
  otherwise that cell is the head of the snake after the tick, in front of the old body
  (without its tail unless the cell held the food). So crossing an edge does not end the
  game: from \<open>(29, 5)\<close> with 30 columns, moving right, the head goes to \<open>(0, 5)\<close>.
\<close>

theorem tick_head_wraps:
  assumes "\<not> game_over g" and "0 < cols g" and "0 < rows g" and "snake g \<noteq> []"
  shows "\<exists>x y. new_head (g\<lparr>direction := next_direction g\<rparr>) = Inr (x, y) \<and>
           x = (fst (hd (snake g)) + fst (next_direction g)) mod cols g \<and>
           y = (snd (hd (snake g)) + snd (next_direction g)) mod rows g \<and>
           0 \<le> x \<and> x < cols g \<and> 0 \<le> y \<and> y < rows g \<and>
           (game_over (after (tick r g)) \<longleftrightarrow> (x, y) \<in> set (snake g)) \<and>
           ((x, y) \<in> set (snake g) \<longrightarrow> snake (after (tick r g)) = snake g) \<and>
           ((x, y) \<notin> set (snake g) \<longrightarrow>
              snake (after (tick r g)) =
                (x, y) # (if food g = Some (x, y) then snake g else butlast (snake g)))"
proof -
  define x where "x = (fst (hd (snake g)) + fst (next_direction g)) mod cols g"
  define y where "y = (snd (hd (snake g)) + snd (next_direction g)) mod rows g"
  have head: "new_head (g\<lparr>direction := next_direction g\<rparr>) = Inr (x, y)"
    using assms by (cases "snake g") (auto simp: new_head_def x_def y_def split: prod.splits)
  have range: "0 \<le> x \<and> x < cols g \<and> 0 \<le> y \<and> y < rows g"
    using assms by (simp add: x_def y_def)
  have over: "game_over (after (tick r g)) \<longleftrightarrow> (x, y) \<in> set (snake g)"
    using assms(1) by (cases rule: tick_after_cases [where r = r]) (use head assms(1) in auto)
  have hit: "snake (after (tick r g)) = snake g" if "(x, y) \<in> set (snake g)"
    using assms(1) by (cases rule: tick_after_cases [where r = r]) (use head that in auto)
  have moved: "snake (after (tick r g)) =
      (x, y) # (if food g = Some (x, y) then snake g else butlast (snake g))"
    if "(x, y) \<notin> set (snake g)"
    using assms(1) by (cases rule: tick_after_cases [where r = r]) (use head that in auto)
  from head range over hit moved show ?thesis
    unfolding x_def y_def by blast
qed

theorem tick_head_wraps_witness:
  "new_head (edge30\<lparr>direction := next_direction edge30\<rparr>) = Inr (0, 5) \<and>
   \<not> game_over (after (tick 0 edge30)) \<and>
   snake (after (tick 0 edge30)) = [(0, 5), (29, 5), (28, 5)]"
proof -
  have h: "\<not> game_over edge30" "0 < cols edge30" "0 < rows edge30" "snake edge30 \<noteq> []"
    by (simp_all add: edge30_def blank_def)
  from tick_head_wraps [OF h, of 0] obtain x y where
    head: "new_head (edge30\<lparr>direction := next_direction edge30\<rparr>) = Inr (x, y)"
    and x: "x = (fst (hd (snake edge30)) + fst (next_direction edge30)) mod cols edge30"
    and y: "y = (snd (hd (snake edge30)) + snd (next_direction edge30)) mod rows edge30"
    and over: "game_over (after (tick 0 edge30)) \<longleftrightarrow> (x, y) \<in> set (snake edge30)"
    and moved: "(x, y) \<notin> set (snake edge30) \<longrightarrow>
      snake (after (tick 0 edge30)) =
        (x, y) # (if food edge30 = Some (x, y) then snake edge30 else butlast (snake edge30))"
    by blast
  from x have x0: "x = 0" by (simp add: edge30_def blank_def)
  from y have y5: "y = 5" by (simp add: edge30_def blank_def)
  have free: "(0, 5) \<notin> set (snake edge30)"
    by (simp add: edge30_def blank_def)
  have nofood: "food edge30 = None" and body: "butlast (snake edge30) = [(29, 5), (28, 5)]"
    by (simp_all add: edge30_def blank_def)
  from moved free x0 y5 nofood body
  have "snake (after (tick 0 edge30)) = [(0, 5), (29, 5), (28, 5)]"
    by simp
  with head over x0 y5 free show ?thesis by simp
qed

subsection \<open>Claim C5\<close>

text \<open>
  Claim C5 ends with: with current direction right, a request to go left followed by a
  tick leaves the active direction right. The rejected request leaves the pending
  direction as it is, and the tick commits it: in \<open>turning\<close> the direction is right and
  a turn up is pending, so after the rejected request and a tick the snake moves up.
\<close>

theorem reverse_then_tick_counterexample:
  "direction turning = (1, 0) \<and>
   change_direction (- 1, 0) turning = turning \<and>
   direction (after (tick 0 (change_direction (- 1, 0) turning))) = (0, - 1)"
  by (simp add: turning_eq change_direction_def tick_def new_head_def after_def Let_def)

text \<open>
  Claim C5, as the code has it. A request for the componentwise negation of the current
  direction leaves the state unchanged; any other request records the requested direction
  as the pending one and changes nothing else. After a rejected request, the tick of a
  live game commits the direction that was pending before the request; in particular,
  when the current and the pending direction are both right, a request to go left
  followed by a tick leaves the active direction right.
\<close>

theorem change_direction_reverse:
  "(fst d = - fst (direction g) \<and> snd d = - snd (direction g) \<longrightarrow> change_direction d g = g) \<and>
   (\<not> (fst d = - fst (direction g) \<and> snd d = - snd (direction g)) \<longrightarrow>
      change_direction d g = g\<lparr>next_direction := d\<rparr>) \<and>
   (\<not> game_over g \<longrightarrow>
      direction (after (tick r (change_direction (- fst (direction g), - snd (direction g)) g))) =
        next_direction g) \<and>
   (direction g = (1, 0) \<and> next_direction g = (1, 0) \<longrightarrow>
      direction (after (tick r (change_direction (- 1, 0) g))) = (1, 0))"
proof -
  have rev: "change_direction (- fst (direction g), - snd (direction g)) g = g"
    by (simp add: change_direction_def)
  have commit: "direction (after (tick r g)) = next_direction g" if "\<not> game_over g"
    using that by (cases rule: tick_after_cases [where r = r]) simp_all
  have right: "direction (after (tick r (change_direction (- 1, 0) g))) = (1, 0)"
    if "direction g = (1, 0)" and "next_direction g = (1, 0)"
  proof (cases "game_over g")
    case True
    with that show ?thesis
      by (simp add: change_direction_def tick_dead after_def)
  next
    case False
    with that rev commit show ?thesis
      by simp
  qed
  show ?thesis
    using rev commit right by (simp add: change_direction_def)
qed

theorem change_direction_reverse_witness:
  "change_direction (- 1, 0) row4 = row4 \<and>
   change_direction (0, - 1) row4 = row4\<lparr>next_direction := (0, - 1)\<rparr> \<and>
   direction row4 = (1, 0) \<and> next_direction row4 = (1, 0) \<and> \<not> game_over row4 \<and>
   direction (after (tick 0 (change_direction (- 1, 0) row4))) = (1, 0)"
proof -
  have dir: "direction row4 = (1, 0)" and nxt: "next_direction row4 = (1, 0)"
    and alive: "\<not> game_over row4"
    by (simp_all add: row4_eq)
  show ?thesis
    using change_direction_reverse [of "(- 1, 0)" row4 0]
      change_direction_reverse [of "(0, - 1)" row4 0] dir nxt alive
    by simp
qed

subsection \<open>Claim C6\<close>

text \<open>
  Claim C6. When a tick of a live game returns with the game still live, the new head is
  put in front of the snake; if the new head is the food cell the tail stays and the
  snake is one cell longer, otherwise the tail is removed and the length is unchanged.
\<close>

theorem tick_length:
  assumes "\<not> game_over g" and "tick r g = Inr g'" and "\<not> game_over g'"
  shows "\<exists>nh. new_head (g\<lparr>direction := next_direction g\<rparr>) = Inr nh \<and>
           (food g = Some nh \<longrightarrow>
              snake g' = nh # snake g \<and> length (snake g') = length (snake g) + 1) \<and>
           (food g \<noteq> Some nh \<longrightarrow>
              snake g' = nh # butlast (snake g) \<and> length (snake g') = length (snake g))"
proof -
  from assms(2) have g': "after (tick r g) = g'"
    by (simp add: after_def)
  from assms(1) show ?thesis
  proof (cases rule: tick_after_cases [where r = r])
    case (raised e)
    with assms show ?thesis by (simp add: tick_raise)
  next
    case (collide nh)
    with assms g' show ?thesis by auto
  next
    case (move nh)
    then have "snake g \<noteq> []" by (auto dest: new_head_nonempty)
    with move g' show ?thesis by auto
  next
    case (eat nh s)
    with g' show ?thesis by auto
  next
    case (eat_raised nh e)
    with assms show ?thesis by (simp add: tick_eat_raise)
  qed
qed

theorem tick_length_witness:
  "(\<exists>g'. tick 0 row4 = Inr g' \<and> \<not> game_over g' \<and> food row4 = Some (3, 0) \<and>
      snake g' = (3, 0) # snake row4 \<and> length (snake g') = length (snake row4) + 1) \<and>
   (\<exists>g'. tick 0 row5 = Inr g' \<and> \<not> game_over g' \<and> food row5 \<noteq> Some (3, 0) \<and>
      snake g' = (3, 0) # butlast (snake row5) \<and> length (snake g') = length (snake row5))"
proof -
  have t4: "tick 0 row4 = Inr row4_full"
    by code_simp
  have a4: "\<not> game_over row4" "\<not> game_over row4_full"
    by (simp_all add: row4_eq row4_full_eq)
  have h4: "new_head (row4\<lparr>direction := next_direction row4\<rparr>) = Inr (3, 0)"
    by (simp add: row4_eq new_head_def)
  have f4: "food row4 = Some (3, 0)"
    by (simp add: row4_eq)
  define g5 where "g5 = row5\<lparr>snake := [(3, 0), (2, 0), (1, 0)]\<rparr>"
  have t5: "tick 0 row5 = Inr g5"
    by (simp add: g5_def row5_eq tick_def new_head_def Let_def)
  have a5: "\<not> game_over row5" "\<not> game_over g5"
    by (simp_all add: g5_def row5_eq)
  have h5: "new_head (row5\<lparr>direction := next_direction row5\<rparr>) = Inr (3, 0)"
    by (simp add: row5_eq new_head_def)
  have f5: "food row5 \<noteq> Some (3, 0)"
    by (simp add: row5_eq)
  have c4: "snake row4_full = (3, 0) # snake row4 \<and>
      length (snake row4_full) = length (snake row4) + 1"
  proof -
    from tick_length [OF a4(1) t4 a4(2)] obtain nh where
      n: "new_head (row4\<lparr>direction := next_direction row4\<rparr>) = Inr nh"
      and m: "food row4 = Some nh \<longrightarrow> snake row4_full = nh # snake row4 \<and>
        length (snake row4_full) = length (snake row4) + 1"
      by blast
    from n h4 have "nh = (3, 0)" by simp
    with m f4 show ?thesis by blast
  qed
  have c5: "snake g5 = (3, 0) # butlast (snake row5) \<and> length (snake g5) = length (snake row5)"
  proof -
    from tick_length [OF a5(1) t5 a5(2)] obtain nh where
      n: "new_head (row5\<lparr>direction := next_direction row5\<rparr>) = Inr nh"
      and m: "food row5 \<noteq> Some nh \<longrightarrow> snake g5 = nh # butlast (snake row5) \<and>
        length (snake g5) = length (snake row5)"
      by blast
    from n h5 have "nh = (3, 0)" by simp
    with m f5 show ?thesis by blast
  qed
  from t4 a4 f4 c4 t5 a5 f5 c5 show ?thesis
    by blast
qed

subsection \<open>Claim C7\<close>

text \<open>
  Claim C7. In a reachable state, a tick that eats the food (the new head is not a snake
  cell and is the food cell) returns with the score increased by exactly 1 and the speed
  set to \<open>max 30 \<lfloor>speed * 0.95\<rfloor>\<close>, which is at most the old speed and at least 30; from
  120 it gives 114. The floating-point product of the source agrees with the exact one on
  every reachable speed.
\<close>

theorem eat_score_speed:
  assumes "reachable g" and "\<not> game_over g"
    and "new_head (g\<lparr>direction := next_direction g\<rparr>) = Inr nh"
    and "nh \<notin> set (snake g)" and "food g = Some nh"
  shows "\<exists>g'. tick r g = Inr g' \<and> score g' = score g + 1 \<and>
           speed g' = max 30 \<lfloor>real_of_int (speed g) * 0.95\<rfloor> \<and>
           speed g' \<le> speed g \<and> 30 \<le> speed g' \<and>
           (speed g = 120 \<longrightarrow> speed g' = 114)"
proof -
  from assms(1) have range: "30 \<le> speed g" "speed g \<le> 120"
    by (simp_all add: reachable_speed)
  define s where "s = max 30 (speed g * 95 div 100)"
  from range have up: "speed_up (speed g) = Inr s"
    unfolding s_def by (rule speed_up_range)
  from assms(2-5) up have
    t: "tick r g = Inr (place_food r (g\<lparr>direction := next_direction g, snake := nh # snake g,
          score := score g + 1, speed := s\<rparr>))"
    by (rule tick_eat)
  have fl: "s = max 30 \<lfloor>real_of_int (speed g) * 0.95\<rfloor>"
    by (simp only: s_def floor_095)
  have bounds: "30 \<le> s \<and> s \<le> speed g"
    using range up by (rule speed_up_bounds)
  have "speed g = 120 \<longrightarrow> s = 114"
    by (simp add: s_def)
  with t fl bounds show ?thesis
    by simp
qed

theorem eat_score_speed_witness:
  "\<exists>g'. tick 0 row4 = Inr g' \<and> score row4 = 0 \<and> score g' = 1 \<and> speed row4 = 120 \<and>
     speed g' = 114"
proof -
  have a: "\<not> game_over row4"
    by (simp add: row4_eq)
  have h: "new_head (row4\<lparr>direction := next_direction row4\<rparr>) = Inr (3, 0)"
    by (simp add: row4_eq new_head_def)
  have n: "(3, 0) \<notin> set (snake row4)"
    by (simp add: row4_eq)
  have f: "food row4 = Some (3, 0)"
    by (simp add: row4_eq)
  have s: "speed row4 = 120" "score row4 = 0"
    by (simp_all add: row4_eq)
  show ?thesis
    using eat_score_speed [OF row4_reachable a h n f, of 0] s by auto
qed

subsection \<open>Claim C8\<close>

text \<open>
  Claim C8. \<open>place_food\<close> changes the food only. The food it places is a free cell of
  the grid, never a snake cell; the food is absent exactly when no cell is free; and
  every free cell is the result of exactly one of the equally likely draws of
  \<open>random.choice\<close>, so the choice is uniform over the free cells.
\<close>

theorem place_food_on_free_cell:
  "(\<forall>c. food (place_food r g) = Some c \<longrightarrow> c \<in> free_cells g) \<and>
   (food (place_food r g) = None \<longleftrightarrow> free_cells g = {}) \<and>
   (\<forall>c \<in> free_cells g. \<exists>!i. i < card (free_cells g) \<and> food (place_food i g) = Some c) \<and>
   place_food r g = g\<lparr>food := food (place_food r g)\<rparr>"
proof -
  let ?ec = "empty_cells g"
  have none: "food (place_food r g) = None \<longleftrightarrow> free_cells g = {}"
    using set_empty_cells [of g] by (auto simp: food_place_food)
  have some: "c \<in> free_cells g" if "food (place_food r g) = Some c" for c
  proof -
    from that have ne: "?ec \<noteq> []" and c: "c = ?ec ! (r mod length ?ec)"
      by (auto simp: food_place_food split: if_splits)
    from ne have "r mod length ?ec < length ?ec"
      by simp
    then have "?ec ! (r mod length ?ec) \<in> set ?ec"
      by (rule nth_mem)
    with c show ?thesis
      by (simp add: set_empty_cells)
  qed
  have draw: "food (place_food i g) = Some (?ec ! i)" if "i < length ?ec" for i
    using that by (auto simp: food_place_food)
  have uniq: "\<exists>!i. i < card (free_cells g) \<and> food (place_food i g) = Some c"
    if "c \<in> free_cells g" for c
  proof -
    from that have "c \<in> set ?ec"
      by (simp add: set_empty_cells)
    with distinct_empty_cells have "\<exists>!i. i < length ?ec \<and> ?ec ! i = c"
      by (rule distinct_Ex1)
    then have "\<exists>!i. i < length ?ec \<and> food (place_food i g) = Some c"
      using draw by (metis option.inject)
    then show ?thesis
      by (simp only: length_empty_cells)
  qed
  have frame: "place_food r g = g\<lparr>food := food (place_food r g)\<rparr>"
    by (simp add: place_food_def Let_def)
  from some none uniq frame show ?thesis
    by blast
qed

theorem place_food_on_free_cell_witness:
  "food (place_food 0 row5) = Some (3, 0) \<and> (3, 0) \<in> free_cells row5 \<and>
   (\<exists>!i. i < card (free_cells row5) \<and> food (place_food i row5) = Some (3, 0)) \<and>
   food (place_food 0 row4_full) = None \<and> free_cells row4_full = {}"
proof -
  have f5: "food (place_food 0 row5) = Some (3, 0)"
    by code_simp
  have f4: "food (place_food 0 row4_full) = None"
    by code_simp
  show ?thesis
    using place_food_on_free_cell [of 0 row5] place_food_on_free_cell [of 0 row4_full] f5 f4
    by simp
qed

subsection \<open>Claim C9\<close>

text \<open>
  Claim C9 has construction reject a grid that is too small or not positive. The
  constructor checks nothing: a window 40 wide with cells of 20 gives a running game of
  2 columns whose third snake cell lies at column \<open>-1\<close>, outside the grid, and a window 10
  wide gives a running game of 0 columns.
\<close>

theorem init_small_grid_counterexample:
  "init 0 40 400 20 =
     Inr \<lparr>cols = 2, rows = 20, snake = [(1, 10), (0, 10), (- 1, 10)], direction = (1, 0),
       next_direction = (1, 0), food = Some (0, 0), game_over = False, speed = 120,
       score = 0\<rparr> \<and>
   init 0 10 400 20 =
     Inr \<lparr>cols = 0, rows = 20, snake = [(0, 10), (- 1, 10), (- 2, 10)], direction = (1, 0),
       next_direction = (1, 0), food = None, game_over = False, speed = 120,
       score = 0\<rparr>"
  by code_simp

text \<open>
  Claim C9, as the code has it. Construction does not validate the grid: for every
  width, every height and every cell size other than 0 it yields a running game
  (\<open>game_over\<close> false, score 0, speed 120) with \<open>cols = width // cell_size\<close> and
  \<open>rows = height // cell_size\<close>, however small or negative these are. Its snake is the 3
  cells \<open>(cols // 2 - i, rows // 2)\<close> for \<open>i = 0, 1, 2\<close>, which lie inside the grid
  exactly when \<open>cols \<ge> 4\<close> and \<open>rows \<ge> 1\<close>. A cell size of 0 fails with
  \<open>ZeroDivisionError\<close> from the division.
\<close>

theorem init_no_validation:
  "(cell_size \<noteq> 0 \<longrightarrow>
      (\<exists>g. init r width height cell_size = Inr g \<and> \<not> game_over g \<and>
         cols g = width div cell_size \<and> rows g = height div cell_size \<and>
         snake g = [(cols g div 2, rows g div 2), (cols g div 2 - 1, rows g div 2),
                    (cols g div 2 - 2, rows g div 2)] \<and>
         (set (snake g) \<subseteq> {0 ..< cols g} \<times> {0 ..< rows g} \<longleftrightarrow> 4 \<le> cols g \<and> 1 \<le> rows g) \<and>
         length (snake g) = 3 \<and> score g = 0 \<and> speed g = 120)) \<and>
   (cell_size = 0 \<longrightarrow> init r width height cell_size = Inl ZeroDivisionError)"
  using reset_snake_inside [of r "blank (width div cell_size) (height div cell_size)"]
  by (simp add: init_def reset_fields blank_def)

theorem init_no_validation_witness:
  "\<exists>g. init 0 40 400 20 = Inr g \<and> \<not> game_over g \<and> cols g = 2 \<and> rows g = 20 \<and>
     snake g = [(1, 10), (0, 10), (- 1, 10)] \<and>
     \<not> set (snake g) \<subseteq> {0 ..< cols g} \<times> {0 ..< rows g} \<and>
     length (snake g) = 3 \<and> score g = 0 \<and> speed g = 120"
  using init_no_validation [of 20 0 40 400] by auto

subsection \<open>Claim C10\<close>

text \<open>
  Claim C10. In every reachable state of a live game the length of the snake is the
  score plus 3.
\<close>

theorem reachable_length_is_score_plus_3:
  assumes "reachable g" and "\<not> game_over g"
  shows "int (length (snake g)) = score g + 3"
  using assms(1) by (rule reachable_length_score)

theorem reachable_length_is_score_plus_3_witness:
  "reachable row4_full \<and> \<not> game_over row4_full \<and> length (snake row4_full) = 4 \<and>
   score row4_full = 1 \<and> int (length (snake row4_full)) = score row4_full + 3"
proof -
  have alive: "\<not> game_over row4_full"
    by (simp add: row4_full_eq)
  have "length (snake row4_full) = 4" and "score row4_full = 1"
    by (simp_all add: row4_full_eq)
  then show ?thesis
    using reachable_length_is_score_plus_3 [OF row4_full_reachable alive]
      row4_full_reachable alive
    by simp
qed

end
